theory Spec2Isabelle
  imports Main
begin

section \<open>JavaScript values\<close>

text \<open>
  Strings are byte strings (the UTF-8 form of the JavaScript string): every character the
  code inspects (braces, the equals sign, word characters, URL-safe characters) is ASCII,
  and no byte of a multi-byte UTF-8 sequence is ASCII.

  Numbers are the integers; fractional and non-finite numbers are outside this model. A
  JavaScript number holds every integer of magnitude below \<open>2^53\<close> exactly and prints it
  in decimal (\<open>safe_integer\<close>); larger numbers are rounded, and printed with an exponent
  from \<open>10^21\<close> on. The statements below that show the printed form of a request parameter
  or of a data value are therefore made for safe integers.

  An object is the list of its own properties in insertion order; a well-formed object
  has distinct keys, and \<open>map_of\<close> reads a property (\<open>None\<close> is JavaScript's
  \<open>undefined\<close> for an absent property).
\<close>

datatype jsvalue =
    Undefined
  | Null
  | Bool bool
  | Num int
  | Str string
  | Arr "jsvalue list"
  | Obj "(string \<times> jsvalue) list"

definition digit_char :: "nat \<Rightarrow> char" where
  "digit_char d = ''0123456789'' ! d"

fun digits :: "nat \<Rightarrow> string" where
  "digits n = (if n < 10 then [digit_char n] else digits (n div 10) @ [digit_char (n mod 10)])"

declare digits.simps [simp del]

text \<open>\<open>String(n)\<close> and template interpolation of a number.\<close>

definition String_number :: "int \<Rightarrow> string" where
  "String_number i = (if i < 0 then CHR ''-'' # digits (nat (- i)) else digits (nat i))"

text \<open>\<open>Number.isSafeInteger\<close>: the integers on which \<open>String_number\<close> is \<open>String\<close>.\<close>

definition safe_integer :: "int \<Rightarrow> bool" where
  "safe_integer i \<longleftrightarrow> \<bar>i\<bar> < 2 ^ 53"

section \<open>api.ts: the error class\<close>

datatype OmdbErrorKind = Network | Http | Api | Parse

record OmdbError =
  name :: string
  kind :: OmdbErrorKind
  message :: string
  httpStatus :: "int option"
  apiMessage :: "string option"

record OmdbErrorOptions =
  opt_httpStatus :: "int option"
  opt_apiMessage :: "string option"

text \<open>
  The constructor. \<open>options?.httpStatus\<close> is \<open>undefined\<close> when no options object is
  passed, and when the object lacks the field.
\<close>

definition new_OmdbError :: "OmdbErrorKind \<Rightarrow> string \<Rightarrow> OmdbErrorOptions option \<Rightarrow> OmdbError" where
  "new_OmdbError k msg options =
     \<lparr> name = ''OmdbError'',
       kind = k,
       message = msg,
       httpStatus = (case options of None \<Rightarrow> None | Some opts \<Rightarrow> opt_httpStatus opts),
       apiMessage = (case options of None \<Rightarrow> None | Some opts \<Rightarrow> opt_apiMessage opts) \<rparr>"

section \<open>api.ts: the URL builder\<close>

text \<open>
  The host's \<open>URL\<close> object, as far as \<open>buildUrl\<close> and \<open>executeRequest\<close> use it: the
  address without its query, and the list of query pairs behind \<open>url.searchParams\<close>.
\<close>

record URL =
  base :: string
  searchParams :: "(string \<times> string) list"

definition OMDB_BASE_URL :: string where
  "OMDB_BASE_URL = ''https://www.omdbapi.com/''"

definition new_URL :: "string \<Rightarrow> URL" where
  "new_URL s = \<lparr> base = s, searchParams = [] \<rparr>"

text \<open>
  \<open>URLSearchParams.set\<close>: the first pair with the name takes the value and the later pairs
  with the name are removed; with no such pair, the pair is appended.
\<close>

fun searchParams_set :: "string \<Rightarrow> string \<Rightarrow> (string \<times> string) list \<Rightarrow> (string \<times> string) list" where
  "searchParams_set k v [] = [(k, v)]"
| "searchParams_set k v (p # ps) =
     (if fst p = k then (k, v) # filter (\<lambda>q. fst q \<noteq> k) ps
      else p # searchParams_set k v ps)"

definition url_set :: "string \<Rightarrow> string \<Rightarrow> URL \<Rightarrow> URL" where
  "url_set k v url = url\<lparr> searchParams := searchParams_set k v (searchParams url) \<rparr>"

text \<open>A value of the parameter record: \<open>string | number | undefined\<close>.\<close>

datatype param = PString string | PNumber int | PUndefined

fun String_param :: "param \<Rightarrow> string" where
  "String_param (PString s) = s"
| "String_param (PNumber n) = String_number n"
| "String_param PUndefined = ''undefined''"

text \<open>A parameter object whose numbers are safe integers.\<close>

definition safe_params :: "(string \<times> param) list \<Rightarrow> bool" where
  "safe_params params \<longleftrightarrow>
     list_all (\<lambda>(k, v). case v of PNumber n \<Rightarrow> safe_integer n | _ \<Rightarrow> True) params"

text \<open>The loop over \<open>Object.keys(params)\<close>: the keys in insertion order.\<close>

fun buildUrl_loop :: "(string \<times> param) list \<Rightarrow> URL \<Rightarrow> URL" where
  "buildUrl_loop [] url = url"
| "buildUrl_loop ((key, val) # rest) url =
     (if val \<noteq> PUndefined then buildUrl_loop rest (url_set key (String_param val) url)
      else buildUrl_loop rest url)"

definition buildUrl :: "string \<Rightarrow> (string \<times> param) list \<Rightarrow> URL" where
  "buildUrl apiKey params =
     buildUrl_loop params (url_set ''r'' ''json'' (url_set ''apikey'' apiKey (new_URL OMDB_BASE_URL)))"

text \<open>
  \<open>url.toString()\<close>: the serialisation of the host (the \<open>application/x-www-form-urlencoded\<close>
  serialiser of the URL standard): a space becomes \<open>+\<close>, letters, digits and \<open>*-._\<close> stand
  for themselves, every other byte becomes \<open>%\<close> and two upper-case hexadecimal digits.
\<close>

definition hex_char :: "nat \<Rightarrow> char" where
  "hex_char d = ''0123456789ABCDEF'' ! d"

definition urlencode_byte :: "char \<Rightarrow> string" where
  "urlencode_byte c =
     (if c = CHR '' '' then ''+''
      else if c \<in> set ''abcdefghijklmnopqrstuvwxyzABCDEFGHIJKLMNOPQRSTUVWXYZ0123456789*-._'' then [c]
      else [CHR ''%'', hex_char (of_char c div 16), hex_char (of_char c mod 16)])"

definition urlencode :: "string \<Rightarrow> string" where
  "urlencode s = concat (map urlencode_byte s)"

fun serialize_params :: "(string \<times> string) list \<Rightarrow> string" where
  "serialize_params [] = []"
| "serialize_params [(k, v)] = urlencode k @ ''='' @ urlencode v"
| "serialize_params ((k, v) # ps) = urlencode k @ ''='' @ urlencode v @ ''&'' @ serialize_params ps"

definition URL_toString :: "URL \<Rightarrow> string" where
  "URL_toString url =
     (if searchParams url = [] then base url
      else base url @ ''?'' @ serialize_params (searchParams url))"

section \<open>api.ts: the request executor\<close>

text \<open>
  The transport capability \<open>requestUrl\<close> of the host: called with the URL string (and
  \<open>throw: false\<close>), it either throws or returns a response with a status and the parsed
  body. It acts on the world outside the program, of type \<open>'w\<close>, which is passed through:
  the world after an operation tells how often the transport ran.
\<close>

datatype thrown = ErrorInstance string | NonError jsvalue

record response =
  status :: int
  json :: jsvalue

datatype transport_result = Throws thrown | Returns response

type_synonym 'w transport = "string \<Rightarrow> 'w \<Rightarrow> transport_result \<times> 'w"

definition executeRequest :: "'w transport \<Rightarrow> URL \<Rightarrow> 'w \<Rightarrow> (OmdbError + jsvalue) \<times> 'w" where
  "executeRequest requestUrl url w =
     (case requestUrl (URL_toString url) w of
        (Throws err, w') \<Rightarrow>
          (Inl (new_OmdbError Network
                 (case err of ErrorInstance m \<Rightarrow> m | NonError _ \<Rightarrow> ''Network error'') None), w')
      | (Returns res, w') \<Rightarrow>
          (if status res \<ge> 400 then
             Inl (new_OmdbError Http (''OMDb returned HTTP '' @ String_number (status res))
                   (Some \<lparr> opt_httpStatus = Some (status res), opt_apiMessage = None \<rparr>))
           else if json res = Null \<or> json res = Undefined then
             Inl (new_OmdbError Parse ''OMDb response was not valid JSON'' None)
           else Inr (json res), w'))"

section \<open>api.ts: the type guards\<close>

text \<open>
  \<open>typeof body === 'object'\<close> holds for objects, arrays and \<open>null\<close>. An array has no
  property named \<open>Response\<close>, \<open>Error\<close>, \<open>imdbID\<close> or \<open>Search\<close>: reading one gives
  \<open>undefined\<close>.
\<close>

fun property :: "jsvalue \<Rightarrow> string \<Rightarrow> jsvalue" where
  "property (Obj props) k = (case map_of props k of None \<Rightarrow> Undefined | Some v \<Rightarrow> v)"
| "property _ k = Undefined"

fun is_object :: "jsvalue \<Rightarrow> bool" where
  "is_object (Obj _) = True"
| "is_object (Arr _) = True"
| "is_object _ = False"

fun is_string :: "jsvalue \<Rightarrow> bool" where
  "is_string (Str _) = True"
| "is_string _ = False"

fun isArray :: "jsvalue \<Rightarrow> bool" where
  "isArray (Arr _) = True"
| "isArray _ = False"

definition isApiError :: "jsvalue \<Rightarrow> bool" where
  "isApiError body =
     (if \<not> is_object body then False
      else property body ''Response'' = Str ''False'' \<and> is_string (property body ''Error''))"

definition isDetailResult :: "jsvalue \<Rightarrow> bool" where
  "isDetailResult body =
     (if \<not> is_object body then False
      else property body ''Response'' = Str ''True'' \<and> is_string (property body ''imdbID''))"

definition isSearchResult :: "jsvalue \<Rightarrow> bool" where
  "isSearchResult body =
     (if \<not> is_object body then False
      else property body ''Response'' = Str ''True'' \<and> isArray (property body ''Search''))"

section \<open>api.ts: the public operations\<close>

datatype OmdbMediaType = Movie | Series | Episode

datatype OmdbPlotLength = Short | Full

fun media_type_param :: "OmdbMediaType option \<Rightarrow> param" where
  "media_type_param None = PUndefined"
| "media_type_param (Some Movie) = PString ''movie''"
| "media_type_param (Some Series) = PString ''series''"
| "media_type_param (Some Episode) = PString ''episode''"

fun plot_length_param :: "OmdbPlotLength option \<Rightarrow> param" where
  "plot_length_param None = PUndefined"
| "plot_length_param (Some Short) = PString ''short''"
| "plot_length_param (Some Full) = PString ''full''"

fun number_param :: "int option \<Rightarrow> param" where
  "number_param None = PUndefined"
| "number_param (Some n) = PNumber n"

record OmdbCommonOptions =
  type_opt :: "OmdbMediaType option"
  plot_opt :: "OmdbPlotLength option"

record OmdbFetchByTitleOptions = OmdbCommonOptions +
  year_opt :: "int option"

record OmdbSearchOptions = OmdbCommonOptions +
  page_opt :: "int option"

text \<open>\<open>body.Error\<close> of a body that passed \<open>isApiError\<close>.\<close>

fun string_of :: "jsvalue \<Rightarrow> string" where
  "string_of (Str s) = s"
| "string_of _ = []"

definition api_error :: "jsvalue \<Rightarrow> OmdbError" where
  "api_error body =
     new_OmdbError Api (string_of (property body ''Error''))
       (Some \<lparr> opt_httpStatus = None, opt_apiMessage = Some (string_of (property body ''Error'')) \<rparr>)"

text \<open>
  The parameter objects the three operations pass to \<open>buildUrl\<close>:
  \<open>{ t: title, y: year, type, plot }\<close>, \<open>{ i: imdbId, type, plot }\<close> and
  \<open>{ s: query, type, plot, page }\<close>, with the options destructured from \<open>options\<close>.
\<close>

definition fetchByTitle_params :: "string \<Rightarrow> OmdbFetchByTitleOptions \<Rightarrow> (string \<times> param) list" where
  "fetchByTitle_params title options =
     [(''t'', PString title), (''y'', number_param (year_opt options)),
      (''type'', media_type_param (type_opt options)),
      (''plot'', plot_length_param (plot_opt options))]"

definition fetchById_params :: "string \<Rightarrow> OmdbCommonOptions \<Rightarrow> (string \<times> param) list" where
  "fetchById_params imdbId options =
     [(''i'', PString imdbId),
      (''type'', media_type_param (type_opt options)),
      (''plot'', plot_length_param (plot_opt options))]"

definition searchByTitle_params :: "string \<Rightarrow> OmdbSearchOptions \<Rightarrow> (string \<times> param) list" where
  "searchByTitle_params query options =
     [(''s'', PString query),
      (''type'', media_type_param (type_opt options)),
      (''plot'', plot_length_param (plot_opt options)),
      (''page'', number_param (page_opt options))]"

definition fetchByTitle ::
  "'w transport \<Rightarrow> string \<Rightarrow> string \<Rightarrow> OmdbFetchByTitleOptions \<Rightarrow> 'w \<Rightarrow> (OmdbError + jsvalue) \<times> 'w" where
  "fetchByTitle requestUrl apiKey title options w =
     (let url = buildUrl apiKey (fetchByTitle_params title options)
      in case executeRequest requestUrl url w of
           (Inl e, w') \<Rightarrow> (Inl e, w')
         | (Inr body, w') \<Rightarrow>
             (if isApiError body then Inl (api_error body)
              else if isDetailResult body then Inr body
              else Inl (new_OmdbError Parse ''Unexpected response shape from OMDb'' None), w'))"

definition fetchById ::
  "'w transport \<Rightarrow> string \<Rightarrow> string \<Rightarrow> OmdbCommonOptions \<Rightarrow> 'w \<Rightarrow> (OmdbError + jsvalue) \<times> 'w" where
  "fetchById requestUrl apiKey imdbId options w =
     (let url = buildUrl apiKey (fetchById_params imdbId options)
      in case executeRequest requestUrl url w of
           (Inl e, w') \<Rightarrow> (Inl e, w')
         | (Inr body, w') \<Rightarrow>
             (if isApiError body then Inl (api_error body)
              else if isDetailResult body then Inr body
              else Inl (new_OmdbError Parse ''Unexpected response shape from OMDb'' None), w'))"

definition searchByTitle ::
  "'w transport \<Rightarrow> string \<Rightarrow> string \<Rightarrow> OmdbSearchOptions \<Rightarrow> 'w \<Rightarrow> (OmdbError + jsvalue) \<times> 'w" where
  "searchByTitle requestUrl apiKey query options w =
     (let url = buildUrl apiKey (searchByTitle_params query options)
      in case executeRequest requestUrl url w of
           (Inl e, w') \<Rightarrow> (Inl e, w')
         | (Inr body, w') \<Rightarrow>
             (if isApiError body then Inl (api_error body)
              else if isSearchResult body then Inr body
              else Inl (new_OmdbError Parse ''Unexpected response shape from OMDb'' None), w'))"

text \<open>
  A call of one of the three public operations with its arguments, so that a property of
  all three is stated once: \<open>perform\<close> runs the operation called, and \<open>request_params\<close>
  is the parameter object it passes to \<open>buildUrl\<close>.
\<close>

datatype operation =
    FetchByTitle string OmdbFetchByTitleOptions
  | FetchById string OmdbCommonOptions
  | SearchByTitle string OmdbSearchOptions

fun request_params :: "operation \<Rightarrow> (string \<times> param) list" where
  "request_params (FetchByTitle title options) = fetchByTitle_params title options"
| "request_params (FetchById imdbId options) = fetchById_params imdbId options"
| "request_params (SearchByTitle query options) = searchByTitle_params query options"

fun perform :: "'w transport \<Rightarrow> string \<Rightarrow> operation \<Rightarrow> 'w \<Rightarrow> (OmdbError + jsvalue) \<times> 'w" where
  "perform requestUrl apiKey (FetchByTitle title options) w =
     fetchByTitle requestUrl apiKey title options w"
| "perform requestUrl apiKey (FetchById imdbId options) w =
     fetchById requestUrl apiKey imdbId options w"
| "perform requestUrl apiKey (SearchByTitle query options) w =
     searchByTitle requestUrl apiKey query options w"

section \<open>template.ts\<close>

text \<open>
  \<open>PLACEHOLDER_REGEX = /\{=(\w+)=\}/g\<close>. Without the \<open>u\<close> and \<open>i\<close> flags, \<open>\w\<close> is
  \<open>[A-Za-z0-9_]\<close>.
\<close>

definition is_word_char :: "char \<Rightarrow> bool" where
  "is_word_char c \<longleftrightarrow>
     c \<in> set ''abcdefghijklmnopqrstuvwxyzABCDEFGHIJKLMNOPQRSTUVWXYZ0123456789_''"

text \<open>
  One attempt of the regular expression at the start of a string: \<open>{=\<close>, then the longest
  run of word characters, which must not be empty, then \<open>=}\<close>. A shorter run cannot
  match, since the character after it is a word character and not \<open>=\<close>. The result is the
  captured key and the text after the match.
\<close>

definition match_placeholder :: "string \<Rightarrow> (string \<times> string) option" where
  "match_placeholder s =
     (case s of
        c1 # c2 # t \<Rightarrow>
          (if c1 = CHR ''{'' \<and> c2 = CHR ''='' then
             (let key = takeWhile is_word_char t; after = dropWhile is_word_char t
              in if key = [] then None
                 else (case after of
                         d1 # d2 # rest \<Rightarrow>
                           (if d1 = CHR ''='' \<and> d2 = CHR ''}'' then Some (key, rest) else None)
                       | _ \<Rightarrow> None))
           else None)
      | _ \<Rightarrow> None)"

text \<open>The text of a match with the given key.\<close>

definition placeholder :: "string \<Rightarrow> string" where
  "placeholder key = ''{='' @ key @ ''=}''"

lemma match_placeholder_shorter:
  "match_placeholder s = Some (key, rest) \<Longrightarrow> length rest < length s"
proof -
  assume m: "match_placeholder s = Some (key, rest)"
  then obtain t where s: "s = CHR ''{'' # CHR ''='' # t"
    by (auto simp: match_placeholder_def split: list.splits if_splits)
  from m s have "dropWhile is_word_char t = CHR ''='' # CHR ''}'' # rest"
    by (auto simp: match_placeholder_def Let_def split: list.splits if_splits)
  then have "length rest < length (dropWhile is_word_char t)" by simp
  also have "\<dots> \<le> length t" by (rule length_dropWhile_le)
  finally show ?thesis using s by simp
qed

text \<open>
  \<open>content.replace(PLACEHOLDER_REGEX, callback)\<close> with the global flag: the text is scanned
  from the left; at a match the callback's result is emitted and the scan goes on after
  the match, otherwise one character is copied. The callback of \<open>applyTemplate\<close> updates
  the counter \<open>replaced\<close>, which is passed through as state.
\<close>

function String_replace ::
  "(string \<Rightarrow> string \<Rightarrow> 's \<Rightarrow> string \<times> 's) \<Rightarrow> string \<Rightarrow> 's \<Rightarrow> string \<times> 's" where
  "String_replace f [] st = ([], st)"
| "String_replace f (c # cs) st =
     (case match_placeholder (c # cs) of
        Some (key, rest) \<Rightarrow>
          (case f (placeholder key) key st of
             (r, st') \<Rightarrow>
               (case String_replace f rest st' of (out, st'') \<Rightarrow> (r @ out, st'')))
      | None \<Rightarrow>
          (case String_replace f cs st of (out, st') \<Rightarrow> (c # out, st')))"
  by pat_completeness auto
termination
  by (relation "measure (\<lambda>(f, s, st). length s)") (auto dest: match_placeholder_shorter)

definition EXCLUDED_KEYS :: "string set" where
  "EXCLUDED_KEYS = {''Response''}"

record ApplyTemplateResult =
  content :: string
  replaced :: nat

text \<open>
  The callback. The data record is an object, given by its own properties. \<open>key in data\<close>
  also holds for the properties every object inherits (\<open>constructor\<close>, \<open>toString\<close>,
  \<open>__proto__\<close> and the like), whose values are functions or objects: for them the
  \<open>typeof\<close> test returns the match unchanged, as the \<open>in\<close> test does for an absent key.
\<close>

definition applyTemplate_callback ::
  "(string \<times> jsvalue) list \<Rightarrow> string \<Rightarrow> string \<Rightarrow> nat \<Rightarrow> string \<times> nat" where
  "applyTemplate_callback data match key n =
     (if key \<in> EXCLUDED_KEYS then (match, n)
      else (case map_of data key of
              None \<Rightarrow> (match, n)
            | Some (Str s) \<Rightarrow> (s, n + 1)
            | Some (Num i) \<Rightarrow> (String_number i, n + 1)
            | Some _ \<Rightarrow> (match, n)))"

definition applyTemplate :: "string \<Rightarrow> (string \<times> jsvalue) list \<Rightarrow> ApplyTemplateResult" where
  "applyTemplate text data =
     (case String_replace (applyTemplate_callback data) text 0 of
        (result, n) \<Rightarrow> \<lparr> content = result, replaced = n \<rparr>)"

subsection \<open>The behaviour the specification describes\<close>

text \<open>
  The specification's terms for \<open>applyTemplate\<close>, to compare the code with. An
  identifier is a non-empty run of word characters. A text is free of placeholders when
  the placeholder syntax occurs nowhere in it.
\<close>

definition is_identifier :: "string \<Rightarrow> bool" where
  "is_identifier key \<longleftrightarrow> key \<noteq> [] \<and> list_all is_word_char key"

primrec no_placeholder :: "string \<Rightarrow> bool" where
  "no_placeholder [] = True"
| "no_placeholder (c # cs) = (match_placeholder (c # cs) = None \<and> no_placeholder cs)"

text \<open>The string form of a value that is a string or a number; no other value has one here.\<close>

fun value_text :: "jsvalue \<Rightarrow> string option" where
  "value_text (Str s) = Some s"
| "value_text (Num i) = Some (String_number i)"
| "value_text _ = None"

text \<open>A data record whose numbers are safe integers.\<close>

definition safe_numbers :: "(string \<times> jsvalue) list \<Rightarrow> bool" where
  "safe_numbers data \<longleftrightarrow>
     list_all (\<lambda>(k, v). case v of Num i \<Rightarrow> safe_integer i | _ \<Rightarrow> True) data"

text \<open>
  The text that replaces the placeholder of an identifier: none when the identifier is in
  the exclusion set, or is not a property of the data record, or its value is neither a
  string nor a number; otherwise the string form of the value.
\<close>

definition spec_replacement :: "(string \<times> jsvalue) list \<Rightarrow> string \<Rightarrow> string option" where
  "spec_replacement data key =
     (if key \<in> EXCLUDED_KEYS then None
      else case map_of data key of None \<Rightarrow> None | Some v \<Rightarrow> value_text v)"

text \<open>
  A text written as its placeholders, each with the placeholder-free text before it,
  and the placeholder-free text after the last one; \<open>assemble g\<close> writes \<open>g key\<close> for the
  placeholder of \<open>key\<close>.
\<close>

definition assemble :: "(string \<Rightarrow> string) \<Rightarrow> (string \<times> string) list \<Rightarrow> string \<Rightarrow> string" where
  "assemble g occs end_text = concat (map (\<lambda>(pre, key). pre @ g key) occs) @ end_text"

definition well_formed :: "(string \<times> string) list \<Rightarrow> string \<Rightarrow> bool" where
  "well_formed occs end_text \<longleftrightarrow>
     list_all (\<lambda>(pre, key). no_placeholder pre \<and> is_identifier key) occs \<and>
     no_placeholder end_text"

text \<open>
  For the second application of a template: every opening brace of the text starts a
  placeholder, and no text that replaces a placeholder contains an opening brace.
\<close>

primrec braces_open_placeholders :: "string \<Rightarrow> bool" where
  "braces_open_placeholders [] = True"
| "braces_open_placeholders (c # cs) =
     ((c = CHR ''{'' \<longrightarrow> match_placeholder (c # cs) \<noteq> None) \<and> braces_open_placeholders cs)"

definition brace_free_values :: "(string \<times> jsvalue) list \<Rightarrow> bool" where
  "brace_free_values data \<longleftrightarrow>
     list_all (\<lambda>key. case spec_replacement data key of
                       None \<Rightarrow> True | Some t \<Rightarrow> CHR ''{'' \<notin> set t) (map fst data)"

section \<open>Properties of the URL builder\<close>

lemma searchParams_set_fresh:
  "k \<notin> fst ` set ps \<Longrightarrow> searchParams_set k v ps = ps @ [(k, v)]"
  by (induction ps) auto

lemma buildUrl_loop_fresh:
  assumes "distinct (map fst params)"
    and "fst ` set params \<inter> fst ` set (searchParams url) = {}"
  shows "buildUrl_loop params url =
     url\<lparr> searchParams := searchParams url @
             map (\<lambda>(k, v). (k, String_param v)) (filter (\<lambda>(k, v). v \<noteq> PUndefined) params) \<rparr>"
  using assms
proof (induction params arbitrary: url)
  case Nil
  then show ?case by simp
next
  case (Cons p params)
  obtain key val where p: "p = (key, val)" by (cases p)
  show ?case
  proof (cases "val = PUndefined")
    case True
    with Cons p show ?thesis by auto
  next
    case False
    let ?url = "url_set key (String_param val) url"
    from Cons.prems p have fresh: "key \<notin> fst ` set (searchParams url)" by auto
    then have sp: "searchParams ?url = searchParams url @ [(key, String_param val)]"
      by (simp add: url_set_def searchParams_set_fresh)
    from Cons.prems p have "distinct (map fst params)" by simp
    moreover from Cons.prems p sp have "fst ` set params \<inter> fst ` set (searchParams ?url) = {}"
      by auto
    ultimately have "buildUrl_loop params ?url =
        ?url\<lparr> searchParams := searchParams ?url @
             map (\<lambda>(k, v). (k, String_param v)) (filter (\<lambda>(k, v). v \<noteq> PUndefined) params) \<rparr>"
      by (rule Cons.IH)
    with False p sp show ?thesis by (simp add: url_set_def)
  qed
qed

lemma request_params_keys:
  "distinct (map fst (request_params c)) \<and> ''apikey'' \<notin> fst ` set (request_params c)
   \<and> ''r'' \<notin> fst ` set (request_params c)"
  by (cases c) (simp_all add: fetchByTitle_params_def fetchById_params_def searchByTitle_params_def)

text \<open>
  C5. The parameter objects that reach \<open>buildUrl\<close> are those of the three operations
  (the function is private to the module); they have the keys \<open>t\<close>, \<open>y\<close>, \<open>i\<close>, \<open>s\<close>,
  \<open>type\<close>, \<open>plot\<close> and \<open>page\<close>, as \<open>request_params_keys\<close> shows. For every parameter
  object (its keys are distinct) that does not itself name \<open>apikey\<close> or \<open>r\<close> and whose
  numbers are safe integers, the query is \<open>apikey\<close> with the API key, then \<open>r=json\<close>,
  then, in the object's order, each key whose value is defined with the string form of
  the value; a key whose value is \<open>undefined\<close> does not occur in it.
\<close>

theorem buildUrl_query:
  assumes "distinct (map fst params)"
    and "''apikey'' \<notin> fst ` set params"
    and "''r'' \<notin> fst ` set params"
    and "safe_params params"
  shows "searchParams (buildUrl apiKey params) =
           (''apikey'', apiKey) # (''r'', ''json'') #
           map (\<lambda>(k, v). (k, String_param v)) (filter (\<lambda>(k, v). v \<noteq> PUndefined) params)
       \<and> URL_toString (buildUrl apiKey params) =
           OMDB_BASE_URL @ ''?'' @ serialize_params
             ((''apikey'', apiKey) # (''r'', ''json'') #
              map (\<lambda>(k, v). (k, String_param v)) (filter (\<lambda>(k, v). v \<noteq> PUndefined) params))"
proof -
  let ?url = "url_set ''r'' ''json'' (url_set ''apikey'' apiKey (new_URL OMDB_BASE_URL))"
  have sp: "searchParams ?url = [(''apikey'', apiKey), (''r'', ''json'')]"
    and b: "base ?url = OMDB_BASE_URL"
    by (simp_all add: url_set_def new_URL_def)
  with assms(2,3) have "fst ` set params \<inter> fst ` set (searchParams ?url) = {}" by auto
  from buildUrl_loop_fresh [OF assms(1) this] sp b show ?thesis
    by (simp add: buildUrl_def URL_toString_def)
qed

theorem buildUrl_query_witness:
  "distinct (map fst (fetchByTitle_params ''Heat''
      \<lparr> type_opt = None, plot_opt = Some Full, year_opt = Some 1995 \<rparr>))
   \<and> safe_params (fetchByTitle_params ''Heat''
      \<lparr> type_opt = None, plot_opt = Some Full, year_opt = Some 1995 \<rparr>)
   \<and> searchParams (buildUrl ''k'' (fetchByTitle_params ''Heat''
      \<lparr> type_opt = None, plot_opt = Some Full, year_opt = Some 1995 \<rparr>)) =
     [(''apikey'', ''k''), (''r'', ''json''), (''t'', ''Heat''), (''y'', ''1995''), (''plot'', ''full'')]
   \<and> URL_toString (buildUrl ''k'' (fetchByTitle_params ''Heat''
      \<lparr> type_opt = None, plot_opt = Some Full, year_opt = Some 1995 \<rparr>)) =
     ''https://www.omdbapi.com/?apikey=k&r=json&t=Heat&y=1995&plot=full''"
  using buildUrl_query [of "fetchByTitle_params ''Heat''
      \<lparr> type_opt = None, plot_opt = Some Full, year_opt = Some 1995 \<rparr>" "''k''"]
  by (simp add: fetchByTitle_params_def String_number_def digits.simps digit_char_def
      OMDB_BASE_URL_def urlencode_def urlencode_byte_def safe_params_def safe_integer_def)

section \<open>Properties of the client operations\<close>

lemmas url_eval = URL_toString_def buildUrl_def url_set_def new_URL_def OMDB_BASE_URL_def
  fetchByTitle_params_def fetchById_params_def searchByTitle_params_def urlencode_def
  urlencode_byte_def hex_char_def String_number_def digits.simps digit_char_def

lemma executeRequest_Throws:
  "requestUrl (URL_toString url) w = (Throws err, w') \<Longrightarrow>
   executeRequest requestUrl url w =
     (Inl (new_OmdbError Network
            (case err of ErrorInstance m \<Rightarrow> m | NonError v \<Rightarrow> ''Network error'') None), w')"
  by (simp add: executeRequest_def)

lemma executeRequest_Returns:
  "requestUrl (URL_toString url) w = (Returns res, w') \<Longrightarrow>
   executeRequest requestUrl url w =
     (if status res \<ge> 400 then
        Inl (new_OmdbError Http (''OMDb returned HTTP '' @ String_number (status res))
              (Some \<lparr> opt_httpStatus = Some (status res), opt_apiMessage = None \<rparr>))
      else if json res = Null \<or> json res = Undefined then
        Inl (new_OmdbError Parse ''OMDb response was not valid JSON'' None)
      else Inr (json res), w')"
  by (simp add: executeRequest_def)

text \<open>What an operation does with the outcome of its request.\<close>

lemma perform_Throws:
  assumes "requestUrl (URL_toString (buildUrl apiKey (request_params c))) w = (Throws err, w')"
  shows "perform requestUrl apiKey c w =
     (Inl (new_OmdbError Network
            (case err of ErrorInstance m \<Rightarrow> m | NonError v \<Rightarrow> ''Network error'') None), w')"
  using assms
  by (cases c) (simp_all add: fetchByTitle_def fetchById_def searchByTitle_def executeRequest_Throws)

lemma perform_Returns_error:
  assumes "requestUrl (URL_toString (buildUrl apiKey (request_params c))) w = (Returns res, w')"
    and "400 \<le> status res"
  shows "perform requestUrl apiKey c w =
     (Inl (new_OmdbError Http (''OMDb returned HTTP '' @ String_number (status res))
              (Some \<lparr> opt_httpStatus = Some (status res), opt_apiMessage = None \<rparr>)), w')"
  using assms
  by (cases c) (simp_all add: fetchByTitle_def fetchById_def searchByTitle_def executeRequest_Returns)

lemma perform_Returns_null:
  assumes "requestUrl (URL_toString (buildUrl apiKey (request_params c))) w = (Returns res, w')"
    and "status res < 400" and "json res = Null \<or> json res = Undefined"
  shows "perform requestUrl apiKey c w =
     (Inl (new_OmdbError Parse ''OMDb response was not valid JSON'' None), w')"
  using assms
  by (cases c) (auto simp add: fetchByTitle_def fetchById_def searchByTitle_def executeRequest_Returns)

lemma perform_Returns_body:
  assumes "requestUrl (URL_toString (buildUrl apiKey (request_params c))) w = (Returns res, w')"
    and "status res < 400" and "json res \<noteq> Null" and "json res \<noteq> Undefined"
  shows "perform requestUrl apiKey c w =
     (if isApiError (json res) then Inl (api_error (json res))
      else if (case c of SearchByTitle q opts \<Rightarrow> isSearchResult (json res)
                | _ \<Rightarrow> isDetailResult (json res)) then Inr (json res)
      else Inl (new_OmdbError Parse ''Unexpected response shape from OMDb'' None), w')"
  using assms
  by (cases c) (simp_all add: fetchByTitle_def fetchById_def searchByTitle_def executeRequest_Returns)

lemma isApiError_not_null: "isApiError body \<Longrightarrow> body \<noteq> Null \<and> body \<noteq> Undefined"
  by (auto simp: isApiError_def)

lemma perform_cases:
  obtains err w' where
    "requestUrl (URL_toString (buildUrl apiKey (request_params c))) w = (Throws err, w')"
  | res w' where
    "requestUrl (URL_toString (buildUrl apiKey (request_params c))) w = (Returns res, w')"
  by (metis surj_pair transport_result.exhaust)

text \<open>
  C1. When the transport answers the request of an operation with a response whose status
  is at least 400, the operation fails with an error of kind \<open>http\<close> that carries the
  status in \<open>httpStatus\<close> and the message \<open>OMDb returned HTTP\<close> followed by the status,
  whatever the body of the response is.
\<close>

theorem http_status_classified_first:
  assumes "requestUrl (URL_toString (buildUrl apiKey (request_params c))) w = (Returns res, w')"
    and "400 \<le> status res"
  shows "perform requestUrl apiKey c w =
     (Inl \<lparr> name = ''OmdbError'', kind = Http,
            message = ''OMDb returned HTTP '' @ String_number (status res),
            httpStatus = Some (status res), apiMessage = None \<rparr>, w')"
  using perform_Returns_error [where requestUrl = requestUrl, OF assms] by (simp add: new_OmdbError_def)

theorem http_status_classified_first_witness:
  "perform (\<lambda>u log. (Returns \<lparr> status = 404, json = Obj [(''Response'', Str ''False''),
              (''Error'', Str ''Movie not found!'')] \<rparr>, log @ [u]))
      ''k'' (FetchByTitle ''Heat'' \<lparr> type_opt = None, plot_opt = None, year_opt = None \<rparr>) []
   = (Inl \<lparr> name = ''OmdbError'', kind = Http, message = ''OMDb returned HTTP 404'',
             httpStatus = Some 404, apiMessage = None \<rparr>,
      [''https://www.omdbapi.com/?apikey=k&r=json&t=Heat''])"
  using http_status_classified_first
    [of "\<lambda>u log. (Returns \<lparr> status = 404, json = Obj [(''Response'', Str ''False''),
              (''Error'', Str ''Movie not found!'')] \<rparr>, log @ [u])"
        "''k''" "FetchByTitle ''Heat'' \<lparr> type_opt = None, plot_opt = None, year_opt = None \<rparr>" "[]"
        "\<lparr> status = 404, json = Obj [(''Response'', Str ''False''),
              (''Error'', Str ''Movie not found!'')] \<rparr>"
        "[''https://www.omdbapi.com/?apikey=k&r=json&t=Heat'']"]
  by (simp add: url_eval)

text \<open>
  C2. When the status is below 400 and the body is an object whose \<open>Response\<close> is the
  string \<open>False\<close> and whose \<open>Error\<close> is a string \<open>x\<close>, the operation fails with an error
  of kind \<open>api\<close> whose message and \<open>apiMessage\<close> are both \<open>x\<close>, unchanged.
\<close>

theorem api_failure_verbatim:
  assumes "requestUrl (URL_toString (buildUrl apiKey (request_params c))) w = (Returns res, w')"
    and "status res < 400"
    and "json res = Obj props"
    and "map_of props ''Response'' = Some (Str ''False'')"
    and "map_of props ''Error'' = Some (Str x)"
  shows "perform requestUrl apiKey c w =
     (Inl \<lparr> name = ''OmdbError'', kind = Api, message = x,
            httpStatus = None, apiMessage = Some x \<rparr>, w')"
proof -
  have "isApiError (json res)" using assms(3-5) by (simp add: isApiError_def)
  moreover have "api_error (json res) =
      \<lparr> name = ''OmdbError'', kind = Api, message = x, httpStatus = None, apiMessage = Some x \<rparr>"
    using assms(3-5) by (simp add: api_error_def new_OmdbError_def)
  ultimately show ?thesis
    using perform_Returns_body [where requestUrl = requestUrl, OF assms(1,2)] assms(3) by simp
qed

theorem api_failure_verbatim_witness:
  "perform (\<lambda>u log. (Returns \<lparr> status = 200, json = Obj [(''Response'', Str ''False''),
              (''Error'', Str ''Movie not found!'')] \<rparr>, log @ [u]))
      ''k'' (SearchByTitle ''Heat'' \<lparr> type_opt = None, plot_opt = None, page_opt = Some 2 \<rparr>) []
   = (Inl \<lparr> name = ''OmdbError'', kind = Api, message = ''Movie not found!'',
             httpStatus = None, apiMessage = Some ''Movie not found!'' \<rparr>,
      [''https://www.omdbapi.com/?apikey=k&r=json&s=Heat&page=2''])"
  using api_failure_verbatim
    [of "\<lambda>u log. (Returns \<lparr> status = 200, json = Obj [(''Response'', Str ''False''),
              (''Error'', Str ''Movie not found!'')] \<rparr>, log @ [u])"
        "''k''" "SearchByTitle ''Heat'' \<lparr> type_opt = None, plot_opt = None, page_opt = Some 2 \<rparr>" "[]"
        "\<lparr> status = 200, json = Obj [(''Response'', Str ''False''),
              (''Error'', Str ''Movie not found!'')] \<rparr>"
        "[''https://www.omdbapi.com/?apikey=k&r=json&s=Heat&page=2'']"
        "[(''Response'', Str ''False''), (''Error'', Str ''Movie not found!'')]"
        "''Movie not found!''"]
  by (simp add: url_eval)

text \<open>
  The failure shape and the success shapes require different values of the same field
  \<open>Response\<close>: no body has both.
\<close>

lemma shapes_exclusive:
  "\<not> (\<exists>body. isApiError body \<and> (isDetailResult body \<or> isSearchResult body))"
  by (auto simp: isApiError_def isDetailResult_def isSearchResult_def split: if_splits)

lemma failure_shape_no_success:
  "isApiError body \<Longrightarrow> \<not> isDetailResult body \<and> \<not> isSearchResult body"
  by (auto simp: isApiError_def isDetailResult_def isSearchResult_def split: if_splits)

text \<open>
  C3, as the code has it. In every operation the failure shape is tested first, and a
  body of the failure shape (\<open>Response\<close> \<open>False\<close> and a string \<open>Error\<close>) is classified as
  an error of kind \<open>api\<close> and never returned as a success value, whatever else it carries
  (an \<open>imdbID\<close> string, a \<open>Search\<close> array). Such a body passes neither success test, so
  the order of the two tests decides nothing.
\<close>

theorem failure_shape_wins:
  assumes "requestUrl (URL_toString (buildUrl apiKey (request_params c))) w = (Returns res, w')"
    and "status res < 400"
    and "isApiError (json res)"
  shows "perform requestUrl apiKey c w = (Inl (api_error (json res)), w')
       \<and> kind (api_error (json res)) = Api
       \<and> \<not> isDetailResult (json res) \<and> \<not> isSearchResult (json res)"
proof -
  have "perform requestUrl apiKey c w = (Inl (api_error (json res)), w')"
    using perform_Returns_body [where requestUrl = requestUrl, OF assms(1,2)]
      isApiError_not_null [OF assms(3)] assms(3) by simp
  moreover have "kind (api_error (json res)) = Api"
    by (simp add: api_error_def new_OmdbError_def)
  moreover have "\<not> isDetailResult (json res) \<and> \<not> isSearchResult (json res)"
    using assms(3)
    by (auto simp: isApiError_def isDetailResult_def isSearchResult_def split: if_splits)
  ultimately show ?thesis by simp
qed

theorem failure_shape_wins_witness:
  "isApiError (Obj [(''Response'', Str ''False''), (''Error'', Str ''Too many results.''),
       (''imdbID'', Str ''tt1''), (''Search'', Arr [])])
   \<and> perform (\<lambda>u log. (Returns \<lparr> status = 200, json = Obj [(''Response'', Str ''False''),
              (''Error'', Str ''Too many results.''), (''imdbID'', Str ''tt1''),
              (''Search'', Arr [])] \<rparr>, log @ [u]))
      ''k'' (FetchById ''tt1'' \<lparr> type_opt = None, plot_opt = None \<rparr>) []
   = (Inl \<lparr> name = ''OmdbError'', kind = Api, message = ''Too many results.'',
             httpStatus = None, apiMessage = Some ''Too many results.'' \<rparr>,
      [''https://www.omdbapi.com/?apikey=k&r=json&i=tt1''])"
  using failure_shape_wins
    [of "\<lambda>u log. (Returns \<lparr> status = 200, json = Obj [(''Response'', Str ''False''),
              (''Error'', Str ''Too many results.''), (''imdbID'', Str ''tt1''),
              (''Search'', Arr [])] \<rparr>, log @ [u])"
        "''k''" "FetchById ''tt1'' \<lparr> type_opt = None, plot_opt = None \<rparr>" "[]"
        "\<lparr> status = 200, json = Obj [(''Response'', Str ''False''),
              (''Error'', Str ''Too many results.''), (''imdbID'', Str ''tt1''),
              (''Search'', Arr [])] \<rparr>"
        "[''https://www.omdbapi.com/?apikey=k&r=json&i=tt1'']"]
  by (simp add: url_eval isApiError_def api_error_def new_OmdbError_def)

text \<open>
  C3, as the specification states it, fails: the classification is not sensitive to the
  order of the tests. No body has the failure shape and a success shape, and every
  operation returns what it would return with the success test made first.
\<close>

theorem classification_order_immaterial:
  "\<not> (\<exists>body. isApiError body \<and> (isDetailResult body \<or> isSearchResult body))
   \<and> (\<forall>requestUrl apiKey c w.
         perform requestUrl apiKey c w =
           (case executeRequest requestUrl (buildUrl apiKey (request_params c)) w of
              (Inl e, w') \<Rightarrow> (Inl e, w')
            | (Inr body, w') \<Rightarrow>
                (if (case c of SearchByTitle query options \<Rightarrow> isSearchResult body
                      | _ \<Rightarrow> isDetailResult body) then Inr body
                 else if isApiError body then Inl (api_error body)
                 else Inl (new_OmdbError Parse ''Unexpected response shape from OMDb'' None), w')))"
proof (intro conjI allI)
  show "\<not> (\<exists>body. isApiError body \<and> (isDetailResult body \<or> isSearchResult body))"
    by (rule shapes_exclusive)
next
  fix requestUrl :: "'w transport" and apiKey c w
  show "perform requestUrl apiKey c w =
           (case executeRequest requestUrl (buildUrl apiKey (request_params c)) w of
              (Inl e, w') \<Rightarrow> (Inl e, w')
            | (Inr body, w') \<Rightarrow>
                (if (case c of SearchByTitle query options \<Rightarrow> isSearchResult body
                      | _ \<Rightarrow> isDetailResult body) then Inr body
                 else if isApiError body then Inl (api_error body)
                 else Inl (new_OmdbError Parse ''Unexpected response shape from OMDb'' None), w'))"
    by (cases c)
      (auto simp: fetchByTitle_def fetchById_def searchByTitle_def
        split: prod.splits sum.splits dest: failure_shape_no_success)
qed

text \<open>
  C7. A body with \<open>Response\<close> \<open>True\<close> and an array \<open>Search\<close>, and no string \<open>imdbID\<close>, is
  returned by \<open>searchByTitle\<close>, and is rejected by \<open>fetchByTitle\<close> and \<open>fetchById\<close> with
  an error of kind \<open>parse\<close> and the message \<open>Unexpected response shape from OMDb\<close>.
\<close>

theorem success_shape_per_operation:
  assumes "requestUrl (URL_toString (buildUrl apiKey (request_params c))) w = (Returns res, w')"
    and "status res < 400"
    and "json res = Obj props"
    and "map_of props ''Response'' = Some (Str ''True'')"
    and "map_of props ''Search'' = Some (Arr entries)"
    and "\<not> is_string (property (Obj props) ''imdbID'')"
  shows "perform requestUrl apiKey c w =
     (case c of
        SearchByTitle query options \<Rightarrow> Inr (json res)
      | _ \<Rightarrow> Inl \<lparr> name = ''OmdbError'', kind = Parse,
                    message = ''Unexpected response shape from OMDb'',
                    httpStatus = None, apiMessage = None \<rparr>, w')"
proof -
  have "\<not> isApiError (json res)" "isSearchResult (json res)" "\<not> isDetailResult (json res)"
    using assms(3-6) by (simp_all add: isApiError_def isSearchResult_def isDetailResult_def)
  then show ?thesis
    using perform_Returns_body [where requestUrl = requestUrl, OF assms(1,2)] assms(3)
    by (cases c) (simp_all add: new_OmdbError_def)
qed

theorem success_shape_per_operation_witness:
  "perform (\<lambda>u log. (Returns \<lparr> status = 200, json = Obj [(''Response'', Str ''True''),
       (''Search'', Arr [Obj [(''Title'', Str ''A''), (''Year'', Str ''1990''), (''imdbID'', Str ''tt1''),
                              (''Type'', Str ''movie''), (''Poster'', Str ''-'')]]),
       (''totalResults'', Str ''1'')] \<rparr>, log @ [u]))
      ''k'' (SearchByTitle ''A'' \<lparr> type_opt = None, plot_opt = None, page_opt = None \<rparr>) []
   = (Inr (Obj [(''Response'', Str ''True''),
       (''Search'', Arr [Obj [(''Title'', Str ''A''), (''Year'', Str ''1990''), (''imdbID'', Str ''tt1''),
                              (''Type'', Str ''movie''), (''Poster'', Str ''-'')]]),
       (''totalResults'', Str ''1'')]),
      [''https://www.omdbapi.com/?apikey=k&r=json&s=A''])
   \<and> perform (\<lambda>u log. (Returns \<lparr> status = 200, json = Obj [(''Response'', Str ''True''),
       (''Search'', Arr [Obj [(''Title'', Str ''A''), (''Year'', Str ''1990''), (''imdbID'', Str ''tt1''),
                              (''Type'', Str ''movie''), (''Poster'', Str ''-'')]]),
       (''totalResults'', Str ''1'')] \<rparr>, log @ [u]))
      ''k'' (FetchByTitle ''A'' \<lparr> type_opt = None, plot_opt = None, year_opt = None \<rparr>) []
   = (Inl \<lparr> name = ''OmdbError'', kind = Parse, message = ''Unexpected response shape from OMDb'',
             httpStatus = None, apiMessage = None \<rparr>,
      [''https://www.omdbapi.com/?apikey=k&r=json&t=A''])"
  using success_shape_per_operation
    [of "\<lambda>u log. (Returns \<lparr> status = 200, json = Obj [(''Response'', Str ''True''),
       (''Search'', Arr [Obj [(''Title'', Str ''A''), (''Year'', Str ''1990''), (''imdbID'', Str ''tt1''),
                              (''Type'', Str ''movie''), (''Poster'', Str ''-'')]]),
       (''totalResults'', Str ''1'')] \<rparr>, log @ [u])"
        "''k''" "SearchByTitle ''A'' \<lparr> type_opt = None, plot_opt = None, page_opt = None \<rparr>" "[]"
        "\<lparr> status = 200, json = Obj [(''Response'', Str ''True''),
       (''Search'', Arr [Obj [(''Title'', Str ''A''), (''Year'', Str ''1990''), (''imdbID'', Str ''tt1''),
                              (''Type'', Str ''movie''), (''Poster'', Str ''-'')]]),
       (''totalResults'', Str ''1'')] \<rparr>"
        "[''https://www.omdbapi.com/?apikey=k&r=json&s=A'']"
        "[(''Response'', Str ''True''),
       (''Search'', Arr [Obj [(''Title'', Str ''A''), (''Year'', Str ''1990''), (''imdbID'', Str ''tt1''),
                              (''Type'', Str ''movie''), (''Poster'', Str ''-'')]]),
       (''totalResults'', Str ''1'')]"
        "[Obj [(''Title'', Str ''A''), (''Year'', Str ''1990''), (''imdbID'', Str ''tt1''),
               (''Type'', Str ''movie''), (''Poster'', Str ''-'')]]"]
    success_shape_per_operation
    [of "\<lambda>u log. (Returns \<lparr> status = 200, json = Obj [(''Response'', Str ''True''),
       (''Search'', Arr [Obj [(''Title'', Str ''A''), (''Year'', Str ''1990''), (''imdbID'', Str ''tt1''),
                              (''Type'', Str ''movie''), (''Poster'', Str ''-'')]]),
       (''totalResults'', Str ''1'')] \<rparr>, log @ [u])"
        "''k''" "FetchByTitle ''A'' \<lparr> type_opt = None, plot_opt = None, year_opt = None \<rparr>" "[]"
        "\<lparr> status = 200, json = Obj [(''Response'', Str ''True''),
       (''Search'', Arr [Obj [(''Title'', Str ''A''), (''Year'', Str ''1990''), (''imdbID'', Str ''tt1''),
                              (''Type'', Str ''movie''), (''Poster'', Str ''-'')]]),
       (''totalResults'', Str ''1'')] \<rparr>"
        "[''https://www.omdbapi.com/?apikey=k&r=json&t=A'']"
        "[(''Response'', Str ''True''),
       (''Search'', Arr [Obj [(''Title'', Str ''A''), (''Year'', Str ''1990''), (''imdbID'', Str ''tt1''),
                              (''Type'', Str ''movie''), (''Poster'', Str ''-'')]]),
       (''totalResults'', Str ''1'')]"
        "[Obj [(''Title'', Str ''A''), (''Year'', Str ''1990''), (''imdbID'', Str ''tt1''),
               (''Type'', Str ''movie''), (''Poster'', Str ''-'')]]"]
  by (simp add: url_eval)

text \<open>
  C8, as the code has it. When the transport throws, the operation fails with an error
  of kind \<open>network\<close>: its message is the message of the \<open>Error\<close> thrown, and the fixed
  text \<open>Network error\<close> when the value thrown is not an \<open>Error\<close>. The world after the
  operation is the world the one failed call left: the transport is not called again.
\<close>

theorem network_error_message:
  assumes "requestUrl (URL_toString (buildUrl apiKey (request_params c))) w = (Throws err, w')"
  shows "perform requestUrl apiKey c w =
     (Inl \<lparr> name = ''OmdbError'', kind = Network,
            message = (case err of ErrorInstance m \<Rightarrow> m | NonError v \<Rightarrow> ''Network error''),
            httpStatus = None, apiMessage = None \<rparr>, w')"
  using perform_Throws [where requestUrl = requestUrl, OF assms] by (simp add: new_OmdbError_def)

theorem network_error_message_witness:
  "perform (\<lambda>u log. (Throws (ErrorInstance ''net::ERR_CONNECTION_REFUSED''), log @ [u]))
      ''k'' (FetchByTitle ''Heat'' \<lparr> type_opt = None, plot_opt = None, year_opt = Some 1995 \<rparr>) []
   = (Inl \<lparr> name = ''OmdbError'', kind = Network, message = ''net::ERR_CONNECTION_REFUSED'',
             httpStatus = None, apiMessage = None \<rparr>,
      [''https://www.omdbapi.com/?apikey=k&r=json&t=Heat&y=1995''])"
  using network_error_message
    [of "\<lambda>u log. (Throws (ErrorInstance ''net::ERR_CONNECTION_REFUSED''), log @ [u])"
        "''k''" "FetchByTitle ''Heat'' \<lparr> type_opt = None, plot_opt = None, year_opt = Some 1995 \<rparr>"
        "[]" "ErrorInstance ''net::ERR_CONNECTION_REFUSED''"
        "[''https://www.omdbapi.com/?apikey=k&r=json&t=Heat&y=1995'']"]
  by (simp add: url_eval)

text \<open>
  C8, as the specification states it, fails for a failure that is not an \<open>Error\<close>: the
  transport throws an object whose \<open>message\<close> is \<open>socket hang up\<close>, and the error raised
  has the message \<open>Network error\<close>.
\<close>

theorem network_error_message_counterexample:
  "property (Obj [(''message'', Str ''socket hang up'')]) ''message'' = Str ''socket hang up''
   \<and> perform (\<lambda>u log. (Throws (NonError (Obj [(''message'', Str ''socket hang up'')])), log @ [u]))
      ''k'' (SearchByTitle ''Heat'' \<lparr> type_opt = None, plot_opt = None, page_opt = None \<rparr>) []
   = (Inl \<lparr> name = ''OmdbError'', kind = Network, message = ''Network error'',
             httpStatus = None, apiMessage = None \<rparr>,
      [''https://www.omdbapi.com/?apikey=k&r=json&s=Heat''])"
  by (simp add: url_eval searchByTitle_def executeRequest_def new_OmdbError_def)

text \<open>
  C10. When the transport throws a value that is not an \<open>Error\<close>, the operation fails
  with an error of kind \<open>network\<close> whose message is \<open>Network error\<close>, whatever the
  value thrown.
\<close>

theorem network_error_fallback_message:
  assumes "requestUrl (URL_toString (buildUrl apiKey (request_params c))) w =
             (Throws (NonError v), w')"
  shows "perform requestUrl apiKey c w =
     (Inl \<lparr> name = ''OmdbError'', kind = Network, message = ''Network error'',
            httpStatus = None, apiMessage = None \<rparr>, w')"
  using perform_Throws [where requestUrl = requestUrl, OF assms] by (simp add: new_OmdbError_def)

theorem network_error_fallback_message_witness:
  "perform (\<lambda>u log. (Throws (NonError (Str ''connection reset'')), log @ [u]))
      ''k'' (FetchById ''tt0113277'' \<lparr> type_opt = Some Movie, plot_opt = None \<rparr>) []
   = (Inl \<lparr> name = ''OmdbError'', kind = Network, message = ''Network error'',
             httpStatus = None, apiMessage = None \<rparr>,
      [''https://www.omdbapi.com/?apikey=k&r=json&i=tt0113277&type=movie''])"
  using network_error_fallback_message
    [of "\<lambda>u log. (Throws (NonError (Str ''connection reset'')), log @ [u])"
        "''k''" "FetchById ''tt0113277'' \<lparr> type_opt = Some Movie, plot_opt = None \<rparr>"
        "[]" "Str ''connection reset''"
        "[''https://www.omdbapi.com/?apikey=k&r=json&i=tt0113277&type=movie'']"]
  by (simp add: url_eval)

text \<open>
  C9. Every error an operation fails with has one of the four kinds; its \<open>httpStatus\<close>
  is set exactly when the kind is \<open>http\<close>, and its \<open>apiMessage\<close> exactly when the kind is
  \<open>api\<close>.
\<close>

theorem error_fields_match_kind:
  assumes "perform requestUrl apiKey c w = (Inl e, w')"
  shows "kind e \<in> {Network, Http, Api, Parse}
       \<and> (httpStatus e \<noteq> None \<longleftrightarrow> kind e = Http)
       \<and> (apiMessage e \<noteq> None \<longleftrightarrow> kind e = Api)"
proof (cases rule: perform_cases [of requestUrl apiKey c w])
  case (1 err w1)
  from perform_Throws [where requestUrl = requestUrl, OF 1] assms show ?thesis
    by (auto simp: new_OmdbError_def)
next
  case (2 res w1)
  show ?thesis
  proof (cases "400 \<le> status res")
    case True
    from perform_Returns_error [where requestUrl = requestUrl, OF 2 True] assms show ?thesis
      by (auto simp: new_OmdbError_def)
  next
    case False
    then have lt: "status res < 400" by simp
    show ?thesis
    proof (cases "json res = Null \<or> json res = Undefined")
      case True
      from perform_Returns_null [where requestUrl = requestUrl, OF 2 lt True] assms show ?thesis
        by (auto simp: new_OmdbError_def)
    next
      case False
      then have "json res \<noteq> Null" "json res \<noteq> Undefined" by simp_all
      from perform_Returns_body [where requestUrl = requestUrl, OF 2 lt this] assms show ?thesis
        by (auto simp: new_OmdbError_def api_error_def split: if_splits)
    qed
  qed
qed

theorem error_fields_match_kind_witness:
  "perform (\<lambda>u log. (Returns \<lparr> status = 503, json = Null \<rparr>, log @ [u]))
      ''k'' (FetchById ''tt1'' \<lparr> type_opt = None, plot_opt = None \<rparr>) []
   = (Inl \<lparr> name = ''OmdbError'', kind = Http, message = ''OMDb returned HTTP 503'',
             httpStatus = Some 503, apiMessage = None \<rparr>,
      [''https://www.omdbapi.com/?apikey=k&r=json&i=tt1''])
   \<and> (httpStatus \<lparr> name = ''OmdbError'', kind = Http, message = ''OMDb returned HTTP 503'',
             httpStatus = Some 503, apiMessage = None \<rparr> \<noteq> None) =
     (kind \<lparr> name = ''OmdbError'', kind = Http, message = ''OMDb returned HTTP 503'',
             httpStatus = Some 503, apiMessage = None \<rparr> = Http)"
proof -
  have run: "perform (\<lambda>u log. (Returns \<lparr> status = 503, json = Null \<rparr>, log @ [u]))
      ''k'' (FetchById ''tt1'' \<lparr> type_opt = None, plot_opt = None \<rparr>) []
   = (Inl \<lparr> name = ''OmdbError'', kind = Http, message = ''OMDb returned HTTP 503'',
             httpStatus = Some 503, apiMessage = None \<rparr>,
      [''https://www.omdbapi.com/?apikey=k&r=json&i=tt1''])"
    by (simp add: url_eval fetchById_def executeRequest_def new_OmdbError_def)
  from error_fields_match_kind [OF run] run show ?thesis by blast
qed

section \<open>Properties of the template engine\<close>

subsection \<open>The regular expression\<close>

lemma word_char_not_delim:
  "is_word_char c \<Longrightarrow> c \<noteq> CHR ''{'' \<and> c \<noteq> CHR ''='' \<and> c \<noteq> CHR ''}''"
  by (auto simp: is_word_char_def)

lemma takeWhile_identifier:
  "list_all is_word_char key \<Longrightarrow> takeWhile is_word_char (key @ CHR ''='' # r) = key"
  by (induction key) (auto simp: is_word_char_def)

lemma dropWhile_identifier:
  "list_all is_word_char key \<Longrightarrow> dropWhile is_word_char (key @ CHR ''='' # r) = CHR ''='' # r"
  by (induction key) (auto simp: is_word_char_def)

lemma match_placeholder_intro:
  "is_identifier key \<Longrightarrow> match_placeholder (placeholder key @ rest) = Some (key, rest)"
  by (simp add: match_placeholder_def placeholder_def is_identifier_def
      takeWhile_identifier dropWhile_identifier)

lemma match_placeholder_elim:
  assumes "match_placeholder s = Some (key, rest)"
  shows "is_identifier key \<and> s = placeholder key @ rest"
proof -
  from assms obtain t where s: "s = CHR ''{'' # CHR ''='' # t"
    by (auto simp: match_placeholder_def split: list.splits if_splits)
  from assms s have k: "key = takeWhile is_word_char t" and ne: "key \<noteq> []"
    and d: "dropWhile is_word_char t = CHR ''='' # CHR ''}'' # rest"
    by (auto simp: match_placeholder_def Let_def split: list.splits if_splits)
  have "t = takeWhile is_word_char t @ dropWhile is_word_char t" by simp
  with k d have "t = key @ CHR ''='' # CHR ''}'' # rest" by simp
  moreover have "list_all is_word_char key"
    unfolding k list_all_iff by (auto dest: set_takeWhileD)
  ultimately show ?thesis using s ne by (simp add: placeholder_def is_identifier_def)
qed

text \<open>
  The matcher finds exactly the placeholder syntax: \<open>{=\<close>, an identifier, \<open>=}\<close>.
\<close>

lemma match_placeholder_iff:
  "match_placeholder s = Some (key, rest) \<longleftrightarrow> is_identifier key \<and> s = placeholder key @ rest"
  using match_placeholder_intro match_placeholder_elim by blast

lemma match_placeholder_brace:
  "c \<noteq> CHR ''{'' \<Longrightarrow> match_placeholder (c # cs) = None"
  by (auto simp: match_placeholder_def split: list.splits)

lemma placeholder_tail_no_brace:
  "is_identifier key \<Longrightarrow> CHR ''{'' \<notin> set (tl (placeholder key))"
  by (auto simp: placeholder_def is_identifier_def list_all_iff dest: word_char_not_delim)

lemma match_placeholder_before_brace:
  assumes m: "match_placeholder (p @ CHR ''{'' # x) = Some (key, rest)" and ne: "p \<noteq> []"
  shows "\<exists>rest'. match_placeholder p = Some (key, rest')"
proof -
  from match_placeholder_elim [OF m]
  have ident: "is_identifier key" and eq: "p @ CHR ''{'' # x = placeholder key @ rest" by simp_all
  from eq obtain us where
    "(p = placeholder key @ us \<and> us @ CHR ''{'' # x = rest) \<or>
     (p @ us = placeholder key \<and> CHR ''{'' # x = us @ rest)"
    by (auto simp: append_eq_append_conv2)
  then show ?thesis
  proof
    assume "p = placeholder key @ us \<and> us @ CHR ''{'' # x = rest"
    with ident show ?thesis by (auto simp: match_placeholder_intro)
  next
    assume c2: "p @ us = placeholder key \<and> CHR ''{'' # x = us @ rest"
    show ?thesis
    proof (cases us)
      case Nil
      with c2 ident match_placeholder_intro [of key "[]"] show ?thesis by auto
    next
      case (Cons u us')
      with c2 have "u = CHR ''{''" by simp
      with Cons c2 have "placeholder key = p @ CHR ''{'' # us'" by simp
      with ne have "CHR ''{'' \<in> set (tl (placeholder key))" by (cases p) auto
      with placeholder_tail_no_brace [OF ident] show ?thesis by simp
    qed
  qed
qed

lemma no_placeholder_Cons_append:
  assumes "no_placeholder (c # pre)"
  shows "match_placeholder (c # pre @ CHR ''{'' # x) = None"
proof (rule ccontr)
  assume "match_placeholder (c # pre @ CHR ''{'' # x) \<noteq> None"
  then obtain key rest where "match_placeholder ((c # pre) @ CHR ''{'' # x) = Some (key, rest)"
    by auto
  from match_placeholder_before_brace [OF this] assms show False by auto
qed

lemma no_placeholder_iff:
  "no_placeholder s \<longleftrightarrow> (\<forall>a key b. is_identifier key \<longrightarrow> s \<noteq> a @ placeholder key @ b)"
proof (induction s)
  case Nil
  then show ?case by (simp add: placeholder_def)
next
  case (Cons c cs)
  show ?case
  proof
    assume np: "no_placeholder (c # cs)"
    show "\<forall>a key b. is_identifier key \<longrightarrow> c # cs \<noteq> a @ placeholder key @ b"
    proof (intro allI impI notI)
      fix a key b
      assume ident: "is_identifier key" and eq: "c # cs = a @ placeholder key @ b"
      show False
      proof (cases a)
        case Nil
        with eq have "match_placeholder (c # cs) = Some (key, b)"
          using match_placeholder_intro [OF ident, of b] by simp
        with np show False by simp
      next
        case (Cons c' a')
        with eq have "cs = a' @ placeholder key @ b" by simp
        with np ident Cons.IH show False by auto
      qed
    qed
  next
    assume free: "\<forall>a key b. is_identifier key \<longrightarrow> c # cs \<noteq> a @ placeholder key @ b"
    have "match_placeholder (c # cs) = None"
    proof (rule ccontr)
      assume "match_placeholder (c # cs) \<noteq> None"
      then obtain key rest where "match_placeholder (c # cs) = Some (key, rest)" by auto
      then have "is_identifier key" "c # cs = [] @ placeholder key @ rest"
        by (simp_all add: match_placeholder_iff)
      with free show False by blast
    qed
    moreover have "no_placeholder cs"
      unfolding Cons.IH
    proof (intro allI impI notI)
      fix a key b
      assume "is_identifier key" and "cs = a @ placeholder key @ b"
      then have "is_identifier key" "c # cs = (c # a) @ placeholder key @ b" by simp_all
      with free show False by blast
    qed
    ultimately show "no_placeholder (c # cs)" by simp
  qed
qed

subsection \<open>The scan\<close>

lemma placeholder_Cons: "placeholder key = CHR ''{'' # CHR ''='' # key @ ''=}''"
  by (simp add: placeholder_def)

lemma String_replace_at_placeholder:
  assumes "is_identifier key"
  shows "String_replace f (placeholder key @ rest) st =
     (case f (placeholder key) key st of
        (r, st') \<Rightarrow> (case String_replace f rest st' of (out, st'') \<Rightarrow> (r @ out, st'')))"
proof -
  have "String_replace f (CHR ''{'' # (CHR ''='' # key @ ''=}'') @ rest) st =
     (case match_placeholder (CHR ''{'' # (CHR ''='' # key @ ''=}'') @ rest) of
        Some (key, rest) \<Rightarrow>
          (case f (placeholder key) key st of
             (r, st') \<Rightarrow>
               (case String_replace f rest st' of (out, st'') \<Rightarrow> (r @ out, st'')))
      | None \<Rightarrow>
          (case String_replace f ((CHR ''='' # key @ ''=}'') @ rest) st of (out, st') \<Rightarrow> (CHR ''{'' # out, st')))"
    by (rule String_replace.simps(2))
  moreover have "match_placeholder (CHR ''{'' # (CHR ''='' # key @ ''=}'') @ rest) = Some (key, rest)"
    using match_placeholder_intro [OF assms, of rest] by (simp add: placeholder_Cons)
  ultimately show ?thesis by (simp add: placeholder_Cons)
qed

lemma String_replace_before_placeholder:
  assumes "no_placeholder pre" and "is_identifier key"
  shows "String_replace f (pre @ placeholder key @ rest) st =
     (case f (placeholder key) key st of
        (r, st') \<Rightarrow> (case String_replace f rest st' of (out, st'') \<Rightarrow> (pre @ r @ out, st'')))"
  using assms(1)
proof (induction pre)
  case Nil
  show ?case using String_replace_at_placeholder [OF assms(2)] by simp
next
  case (Cons c pre)
  then have np: "no_placeholder pre" by simp
  have "match_placeholder (c # pre @ placeholder key @ rest) = None"
    using no_placeholder_Cons_append [OF Cons.prems] by (simp add: placeholder_Cons)
  then have "String_replace f ((c # pre) @ placeholder key @ rest) st =
      (case String_replace f (pre @ placeholder key @ rest) st of (out, st') \<Rightarrow> (c # out, st'))"
    by simp
  with Cons.IH [OF np] show ?case by (simp split: prod.splits)
qed

lemma String_replace_no_placeholder:
  "no_placeholder s \<Longrightarrow> String_replace f s st = (s, st)"
  by (induction s) simp_all

lemma callback_spec:
  "applyTemplate_callback data (placeholder key) key n =
     (case spec_replacement data key of None \<Rightarrow> (placeholder key, n) | Some t \<Rightarrow> (t, n + 1))"
  by (auto simp: applyTemplate_callback_def spec_replacement_def
      split: option.splits jsvalue.splits)

lemma assemble_Cons:
  "assemble g ((pre, key) # occs) end_text = pre @ g key @ assemble g occs end_text"
  by (simp add: assemble_def)

lemma String_replace_assemble:
  assumes "well_formed occs end_text"
  shows "String_replace (applyTemplate_callback data) (assemble placeholder occs end_text) n =
     (assemble (\<lambda>key. case spec_replacement data key of None \<Rightarrow> placeholder key | Some t \<Rightarrow> t)
        occs end_text,
      n + length (filter (\<lambda>(pre, key). spec_replacement data key \<noteq> None) occs))"
  using assms
proof (induction occs arbitrary: n)
  case Nil
  then show ?case
    by (simp add: assemble_def well_formed_def String_replace_no_placeholder)
next
  case (Cons occ occs)
  obtain pre key where occ: "occ = (pre, key)" by (cases occ)
  from Cons.prems occ have np: "no_placeholder pre" and ident: "is_identifier key"
    and wf: "well_formed occs end_text"
    by (simp_all add: well_formed_def)
  show ?case
    unfolding occ assemble_Cons String_replace_before_placeholder [OF np ident] callback_spec
    by (cases "spec_replacement data key") (simp_all add: Cons.IH [OF wf])
qed

lemma applyTemplate_assembled:
  assumes "well_formed occs end_text"
  shows "applyTemplate (assemble placeholder occs end_text) data =
     \<lparr> content =
         assemble (\<lambda>key. case spec_replacement data key of None \<Rightarrow> placeholder key | Some t \<Rightarrow> t)
           occs end_text,
       replaced = length (filter (\<lambda>(pre, key). spec_replacement data key \<noteq> None) occs) \<rparr>"
  by (simp add: applyTemplate_def String_replace_assemble [OF assms])

text \<open>Every text is a sequence of placeholders with placeholder-free text between them.\<close>

lemma no_placeholder_extend:
  assumes "match_placeholder (c # pre @ x) = None" and "no_placeholder pre"
  shows "no_placeholder (c # pre)"
proof -
  have "match_placeholder (c # pre) = None"
  proof (rule ccontr)
    assume "match_placeholder (c # pre) \<noteq> None"
    then obtain key rest where "match_placeholder (c # pre) = Some (key, rest)" by auto
    then have "is_identifier key" "c # pre = placeholder key @ rest"
      by (simp_all add: match_placeholder_iff)
    then have "match_placeholder (c # pre @ x) = Some (key, rest @ x)"
      using match_placeholder_intro [of key "rest @ x"] by (metis append_Cons append_assoc)
    with assms(1) show False by simp
  qed
  with assms(2) show ?thesis by simp
qed

lemma text_decomposition:
  "\<exists>occs end_text. doc = assemble placeholder occs end_text \<and> well_formed occs end_text"
proof (induction doc rule: length_induct)
  case (1 doc)
  show ?case
  proof (cases doc)
    case Nil
    have "doc = assemble placeholder [] [] \<and> well_formed [] []"
      by (simp add: Nil assemble_def well_formed_def)
    then show ?thesis by blast
  next
    case (Cons c cs)
    show ?thesis
    proof (cases "match_placeholder doc")
      case (Some m)
      obtain key rest where m: "m = (key, rest)" by (cases m)
      from Some m have ident: "is_identifier key" and eq: "doc = placeholder key @ rest"
        by (simp_all add: match_placeholder_iff)
      from Some m have "length rest < length doc" by (auto dest: match_placeholder_shorter)
      with 1 obtain occs end_text where
        d: "rest = assemble placeholder occs end_text" "well_formed occs end_text" by blast
      have "doc = assemble placeholder (([], key) # occs) end_text
          \<and> well_formed (([], key) # occs) end_text"
        using d ident eq by (simp add: assemble_def well_formed_def)
      then show ?thesis by blast
    next
      case None
      from 1 Cons obtain occs end_text where
        d: "cs = assemble placeholder occs end_text" "well_formed occs end_text" by auto
      show ?thesis
      proof (cases occs)
        case Nil
        with d None Cons have "doc = assemble placeholder [] (c # end_text)
            \<and> well_formed [] (c # end_text)"
          by (simp add: assemble_def well_formed_def)
        then show ?thesis by blast
      next
        case (Cons occ occs')
        obtain pre key where occ: "occ = (pre, key)" by (cases occ)
        from d Cons occ have cs: "cs = pre @ placeholder key @ assemble placeholder occs' end_text"
          and np: "no_placeholder pre" and rest: "is_identifier key" "well_formed occs' end_text"
          by (simp_all add: assemble_def well_formed_def)
        from None \<open>doc = c # cs\<close> cs
        have "match_placeholder (c # pre @ (placeholder key @ assemble placeholder occs' end_text)) = None"
          by simp
        from no_placeholder_extend [OF this np] have "no_placeholder (c # pre)" .
        with cs rest \<open>doc = c # cs\<close>
        have "doc = assemble placeholder ((c # pre, key) # occs') end_text
            \<and> well_formed ((c # pre, key) # occs') end_text"
          by (simp add: assemble_def well_formed_def)
        then show ?thesis by blast
      qed
    qed
  qed
qed

lemmas template_eval = applyTemplate_def applyTemplate_callback_def match_placeholder_def
  placeholder_def is_word_char_def EXCLUDED_KEYS_def spec_replacement_def well_formed_def
  assemble_def is_identifier_def brace_free_values_def String_number_def digits.simps
  digit_char_def

text \<open>
  C4, for a data record whose numbers are safe integers. Every text can be written as
  placeholders \<open>{=key=}\<close>, each after a text without placeholders, and a last text
  without placeholders. However it is so written,
  \<open>applyTemplate\<close> returns the same texts in the same order, with each placeholder either
  kept as it is (the key is excluded, or is no property of the data, or its value is
  neither a string nor a number) or replaced, delimiters included, by the string form of
  the value, and \<open>replaced\<close> is the number of placeholders replaced.
\<close>

theorem applyTemplate_placeholders:
  assumes "safe_numbers data"
  shows "(\<exists>occs end_text. well_formed occs end_text \<and> doc = assemble placeholder occs end_text)
   \<and> (\<forall>occs end_text.
         well_formed occs end_text \<and> doc = assemble placeholder occs end_text \<longrightarrow>
         applyTemplate doc data =
           \<lparr> content =
               assemble (\<lambda>key. case spec_replacement data key of
                                 None \<Rightarrow> placeholder key | Some t \<Rightarrow> t) occs end_text,
             replaced = length (filter (\<lambda>(pre, key). spec_replacement data key \<noteq> None) occs) \<rparr>)"
  using text_decomposition [of doc] applyTemplate_assembled by blast

theorem applyTemplate_placeholders_witness:
  "safe_numbers [(''Response'', Str ''True''), (''imdbID'', Str ''tt1285016''),
          (''Title'', Str ''Good Will Hunting''), (''Year'', Num 1997)]
   \<and> well_formed [(''Title: '', ''Title''), ('' ('', ''Year''), ('') by '', ''Director''), ('' '', ''Response'')] ''.''
   \<and> applyTemplate ''Title: {=Title=} ({=Year=}) by {=Director=} {=Response=}.''
         [(''Response'', Str ''True''), (''imdbID'', Str ''tt1285016''),
          (''Title'', Str ''Good Will Hunting''), (''Year'', Num 1997)]
     = \<lparr> content = ''Title: Good Will Hunting (1997) by {=Director=} {=Response=}.'', replaced = 2 \<rparr>"
proof -
  let ?occs = "[(''Title: '', ''Title''), ('' ('', ''Year''), ('') by '', ''Director''), ('' '', ''Response'')]"
  let ?doc = "''Title: {=Title=} ({=Year=}) by {=Director=} {=Response=}.''"
  let ?data = "[(''Response'', Str ''True''), (''imdbID'', Str ''tt1285016''),
          (''Title'', Str ''Good Will Hunting''), (''Year'', Num 1997)]"
  have safe: "safe_numbers ?data"
    by (simp add: safe_numbers_def safe_integer_def)
  have wf: "well_formed ?occs ''.''"
    by (simp add: well_formed_def is_identifier_def is_word_char_def match_placeholder_def)
  have doc: "?doc = assemble placeholder ?occs ''.''"
    by (simp add: assemble_def placeholder_def)
  from applyTemplate_placeholders [OF safe, of ?doc] wf doc
  have "applyTemplate ?doc ?data =
      \<lparr> content =
          assemble (\<lambda>key. case spec_replacement ?data key of
                            None \<Rightarrow> placeholder key | Some t \<Rightarrow> t) ?occs ''.'',
        replaced = length (filter (\<lambda>(pre, key). spec_replacement ?data key \<noteq> None) ?occs) \<rparr>"
    by blast
  then have "applyTemplate ?doc ?data =
      \<lparr> content = ''Title: Good Will Hunting (1997) by {=Director=} {=Response=}.'', replaced = 2 \<rparr>"
    by (simp add: assemble_def placeholder_def spec_replacement_def EXCLUDED_KEYS_def
        String_number_def digits.simps digit_char_def)
  with wf safe show ?thesis by simp
qed

subsection \<open>Applying a template twice\<close>

lemma String_replace_without_brace:
  "CHR ''{'' \<notin> set r \<Longrightarrow>
   String_replace f (r @ t) st = (case String_replace f t st of (out, st') \<Rightarrow> (r @ out, st'))"
  by (induction r) (auto simp: match_placeholder_brace case_prod_beta)

lemma braces_open_placeholders_suffix:
  "braces_open_placeholders (a @ b) \<Longrightarrow> braces_open_placeholders b"
  by (induction a) simp_all

lemma brace_free_valuesD:
  assumes "brace_free_values data" and "spec_replacement data key = Some t"
  shows "CHR ''{'' \<notin> set t"
proof -
  from assms(2) obtain v where "map_of data key = Some v"
    by (auto simp: spec_replacement_def split: if_splits option.splits)
  then have "key \<in> set (map fst data)" by (auto dest: map_of_SomeD intro: rev_image_eqI)
  with assms show ?thesis by (auto simp: brace_free_values_def list_all_iff)
qed

lemma String_replace_again:
  assumes "brace_free_values data"
  shows "braces_open_placeholders s \<Longrightarrow>
     String_replace (applyTemplate_callback data)
       (fst (String_replace (applyTemplate_callback data) s n)) k =
     (fst (String_replace (applyTemplate_callback data) s n), k)"
proof (induction s arbitrary: n k rule: length_induct)
  case (1 s)
  let ?f = "applyTemplate_callback data"
  show ?case
  proof (cases s)
    case Nil
    then show ?thesis by simp
  next
    case (Cons c cs)
    show ?thesis
    proof (cases "match_placeholder s")
      case None
      with "1.prems" Cons have c: "c \<noteq> CHR ''{''" and cs: "braces_open_placeholders cs" by auto
      have "String_replace ?f (fst (String_replace ?f cs n)) k = (fst (String_replace ?f cs n), k)"
        using "1.IH" cs Cons by simp
      with None Cons c show ?thesis
        by (simp add: match_placeholder_brace case_prod_beta)
    next
      case (Some m)
      obtain key rest where m: "m = (key, rest)" by (cases m)
      from Some m have ident: "is_identifier key" and eq: "s = placeholder key @ rest"
        by (simp_all add: match_placeholder_iff)
      from Some m have shorter: "length rest < length s" by (auto dest: match_placeholder_shorter)
      from "1.prems" eq have "braces_open_placeholders rest"
        by (auto dest: braces_open_placeholders_suffix)
      with "1.IH" shorter have IH: "\<And>n k. String_replace ?f (fst (String_replace ?f rest n)) k =
          (fst (String_replace ?f rest n), k)" by blast
      show ?thesis
      proof (cases "spec_replacement data key")
        case None
        then show ?thesis
          unfolding eq String_replace_at_placeholder [OF ident] callback_spec
          by (simp add: String_replace_at_placeholder [OF ident] callback_spec IH case_prod_beta)
      next
        case (Some t)
        from brace_free_valuesD [OF assms Some] have "CHR ''{'' \<notin> set t" .
        with Some show ?thesis
          unfolding eq String_replace_at_placeholder [OF ident] callback_spec
          by (simp add: String_replace_without_brace IH case_prod_beta)
      qed
    qed
  qed
qed

text \<open>
  C6, as the code has it. When every opening brace of the text starts a placeholder and
  no value that replaces a placeholder contains an opening brace, a second application
  with the same data returns the text of the first unchanged and replaces nothing.
\<close>

theorem applyTemplate_twice:
  assumes "braces_open_placeholders doc" and "brace_free_values data"
  shows "applyTemplate (content (applyTemplate doc data)) data =
     \<lparr> content = content (applyTemplate doc data), replaced = 0 \<rparr>"
  using String_replace_again [OF assms(2) assms(1), of 0 0]
  by (simp add: applyTemplate_def case_prod_beta)

theorem applyTemplate_twice_witness:
  "braces_open_placeholders ''Title: {=Title=} ({=Year=}) by {=Director=}''
   \<and> brace_free_values [(''Response'', Str ''True''), (''imdbID'', Str ''tt1285016''),
          (''Title'', Str ''Good Will Hunting''), (''Year'', Num 1997)]
   \<and> applyTemplate ''Title: {=Title=} ({=Year=}) by {=Director=}''
         [(''Response'', Str ''True''), (''imdbID'', Str ''tt1285016''),
          (''Title'', Str ''Good Will Hunting''), (''Year'', Num 1997)]
     = \<lparr> content = ''Title: Good Will Hunting (1997) by {=Director=}'', replaced = 2 \<rparr>
   \<and> applyTemplate ''Title: Good Will Hunting (1997) by {=Director=}''
         [(''Response'', Str ''True''), (''imdbID'', Str ''tt1285016''),
          (''Title'', Str ''Good Will Hunting''), (''Year'', Num 1997)]
     = \<lparr> content = ''Title: Good Will Hunting (1997) by {=Director=}'', replaced = 0 \<rparr>"
  using applyTemplate_twice
    [of "''Title: {=Title=} ({=Year=}) by {=Director=}''"
        "[(''Response'', Str ''True''), (''imdbID'', Str ''tt1285016''),
          (''Title'', Str ''Good Will Hunting''), (''Year'', Num 1997)]"]
  by (simp add: template_eval)

text \<open>
  C6, as the specification states it, fails. A value may itself contain a placeholder,
  which the second application replaces; and a value may complete a placeholder with
  the text around it.
\<close>

theorem applyTemplate_twice_counterexample:
  "content (applyTemplate ''{=Title=}'' [(''Response'', Str ''True''), (''imdbID'', Str ''tt1''),
        (''Title'', Str ''{=Year=}''), (''Year'', Str ''1997'')]) = ''{=Year=}''
   \<and> content (applyTemplate
        (content (applyTemplate ''{=Title=}'' [(''Response'', Str ''True''), (''imdbID'', Str ''tt1''),
           (''Title'', Str ''{=Year=}''), (''Year'', Str ''1997'')]))
        [(''Response'', Str ''True''), (''imdbID'', Str ''tt1''),
         (''Title'', Str ''{=Year=}''), (''Year'', Str ''1997'')]) = ''1997''
   \<and> content (applyTemplate ''{={=Title=}=}'' [(''Response'', Str ''True''), (''imdbID'', Str ''tt1''),
        (''Title'', Str ''Year''), (''Year'', Str ''1997'')]) = ''{=Year=}''
   \<and> content (applyTemplate
        (content (applyTemplate ''{={=Title=}=}'' [(''Response'', Str ''True''), (''imdbID'', Str ''tt1''),
           (''Title'', Str ''Year''), (''Year'', Str ''1997'')]))
        [(''Response'', Str ''True''), (''imdbID'', Str ''tt1''),
         (''Title'', Str ''Year''), (''Year'', Str ''1997'')]) = ''1997''"
  by (simp add: template_eval)

end
